theory Spec2Isabelle
  imports Complex_Main "HOL-Library.Multiset"
begin

section \<open>Floating-point values as the scripts see them\<close>

text \<open>
  The scripts compute with numpy \<open>float64\<close> scalars. A value is a finite number, one of
  the two infinities, or NaN, the "undefined" sentinel that \<open>np.nan\<close> denotes. Finite
  values are exact reals here: rounding, overflow of finite results and the sign of zero
  are abstracted. What is kept is what decides the behaviour on degenerate input: NaN
  propagates through every operation, and a division by zero never raises on a numpy
  scalar, it yields an infinity or NaN.
\<close>

datatype npfloat = Fin real | PInf | NInf | NaN

fun fneg :: "npfloat \<Rightarrow> npfloat" where
  "fneg (Fin a) = Fin (- a)"
| "fneg PInf = NInf"
| "fneg NInf = PInf"
| "fneg NaN = NaN"


fun fadd :: "npfloat \<Rightarrow> npfloat \<Rightarrow> npfloat" where
  "fadd NaN y = NaN"
| "fadd x NaN = NaN"
| "fadd (Fin a) (Fin b) = Fin (a + b)"
| "fadd PInf NInf = NaN"
| "fadd NInf PInf = NaN"
| "fadd PInf y = PInf"
| "fadd x PInf = PInf"
| "fadd NInf y = NInf"
| "fadd x NInf = NInf"

definition fsub :: "npfloat \<Rightarrow> npfloat \<Rightarrow> npfloat" where
  "fsub x y = fadd x (fneg y)"

text \<open>The sign of a value that is not NaN; zero counts as non-negative.\<close>

fun fnonneg :: "npfloat \<Rightarrow> bool" where
  "fnonneg (Fin a) = (0 \<le> a)"
| "fnonneg PInf = True"
| "fnonneg NInf = False"
| "fnonneg NaN = False"

fun fmul :: "npfloat \<Rightarrow> npfloat \<Rightarrow> npfloat" where
  "fmul NaN y = NaN"
| "fmul x NaN = NaN"
| "fmul (Fin a) (Fin b) = Fin (a * b)"
| "fmul x y =
     (if x = Fin 0 \<or> y = Fin 0 then NaN
      else if fnonneg x = fnonneg y then PInf else NInf)"

fun fdiv :: "npfloat \<Rightarrow> npfloat \<Rightarrow> npfloat" where
  "fdiv NaN y = NaN"
| "fdiv x NaN = NaN"
| "fdiv (Fin a) (Fin b) =
     (if b \<noteq> 0 then Fin (a / b)
      else if a = 0 then NaN
      else if 0 < a then PInf else NInf)"
| "fdiv (Fin a) y = Fin 0"
| "fdiv x (Fin b) = (if fnonneg x = (0 \<le> b) then PInf else NInf)"
| "fdiv x y = NaN"

fun fsqrt :: "npfloat \<Rightarrow> npfloat" where
  "fsqrt (Fin a) = (if a < 0 then NaN else Fin (sqrt a))"
| "fsqrt PInf = PInf"
| "fsqrt NInf = NaN"
| "fsqrt NaN = NaN"

definition fsquare :: "npfloat \<Rightarrow> npfloat" where
  "fsquare x = fmul x x"


section \<open>Series, coercion and the reductions of pandas\<close>

text \<open>
  A cell of an input column is either convertible to a number or not (a missing entry, a
  NaN, a text that does not parse). \<open>pd.to_numeric(..., errors="coerce")\<close> turns the
  second kind into NaN and \<open>dropna()\<close> removes them, so what the statistics see is a
  list of reals.
\<close>

datatype cell = Num real | NonNumeric

fun coerce :: "cell \<Rightarrow> real option" where
  "coerce (Num x) = Some x"
| "coerce NonNumeric = None"

definition to_numeric :: "cell list \<Rightarrow> real option list" where
  "to_numeric series = map coerce series"

fun dropna :: "real option list \<Rightarrow> real list" where
  "dropna [] = []"
| "dropna (None # xs) = dropna xs"
| "dropna (Some x # xs) = x # dropna xs"

text \<open>\<open>Series.mean()\<close>: NaN on an empty series.\<close>

definition series_mean :: "real list \<Rightarrow> npfloat" where
  "series_mean s = (if s = [] then NaN else Fin (sum_list s / real (length s)))"

text \<open>\<open>Series.var(ddof=1)\<close>: NaN unless there are at least two values.\<close>

definition series_var :: "real list \<Rightarrow> npfloat" where
  "series_var s =
     (if length s \<le> 1 then NaN
      else Fin ((\<Sum>x\<leftarrow>s. (x - sum_list s / real (length s))\<^sup>2) / (real (length s) - 1)))"

definition series_std :: "real list \<Rightarrow> npfloat" where
  "series_std s = fsqrt (series_var s)"

text \<open>\<open>scipy.stats.sem(series, ddof=1)\<close>: the standard deviation over \<open>sqrt n\<close>.\<close>

definition stats_sem :: "real list \<Rightarrow> npfloat" where
  "stats_sem s = fdiv (series_std s) (Fin (sqrt (real (length s))))"

text \<open>
  \<open>Series.quantile(q)\<close> with the default linear interpolation: position
  \<open>q * (n - 1)\<close> in the sorted values, interpolated between its two neighbours.
\<close>

definition series_quantile :: "real \<Rightarrow> real list \<Rightarrow> npfloat" where
  "series_quantile q s =
     (if s = [] then NaN
      else let v = sort s;
               h = q * (real (length s) - 1);
               lo = nat \<lfloor>h\<rfloor>;
               hi = min (lo + 1) (length s - 1)
           in Fin (v ! lo + (h - real lo) * (v ! hi - v ! lo)))"

definition series_median :: "real list \<Rightarrow> npfloat" where
  "series_median s =
     (if s = [] then NaN
      else let v = sort s; k = length s div 2
           in if odd (length s) then Fin (v ! k) else Fin ((v ! (k - 1) + v ! k) / 2))"

section \<open>calculate\_descriptive\_stats\<close>

record descriptive_stats =
  stat_n :: nat
  stat_mean :: npfloat
  stat_std :: npfloat
  stat_sem :: npfloat
  stat_ci_95 :: "npfloat \<times> npfloat"
  stat_median :: npfloat
  stat_q1 :: npfloat
  stat_q3 :: npfloat

text \<open>
  The quantile function of Student's t distribution is a numerical primitive of scipy; it
  is a parameter \<open>t_ppf\<close> (probability, degrees of freedom) of every function that
  needs it. \<open>stats.t.interval(0.95, df, loc, scale)\<close> is \<open>loc + scale * t_ppf p df\<close>
  at \<open>p = 0.025\<close> and \<open>p = 0.975\<close>; scipy answers NaN when the scale is not
  positive or the location is NaN.
\<close>

fun fpositive :: "npfloat \<Rightarrow> bool" where
  "fpositive (Fin a) = (0 < a)"
| "fpositive PInf = True"
| "fpositive NInf = False"
| "fpositive NaN = False"

definition t_interval ::
  "(real \<Rightarrow> npfloat \<Rightarrow> npfloat) \<Rightarrow> real \<Rightarrow> npfloat \<Rightarrow> npfloat \<Rightarrow> npfloat \<Rightarrow> npfloat \<times> npfloat" where
  "t_interval t_ppf conf df loc scale =
     (if fpositive scale \<and> loc \<noteq> NaN then
        (fadd (fmul (t_ppf ((1 - conf) / 2) df) scale) loc,
         fadd (fmul (t_ppf ((1 + conf) / 2) df) scale) loc)
      else (NaN, NaN))"

definition calculate_descriptive_stats ::
  "(real \<Rightarrow> npfloat \<Rightarrow> npfloat) \<Rightarrow> cell list \<Rightarrow> descriptive_stats" where
  "calculate_descriptive_stats t_ppf data_series =
     (let series = dropna (to_numeric data_series);
          n = length series
      in if n < 2 then
           \<lparr>stat_n = n, stat_mean = NaN, stat_std = NaN, stat_sem = NaN,
            stat_ci_95 = (NaN, NaN), stat_median = NaN, stat_q1 = NaN, stat_q3 = NaN\<rparr>
         else
           let mean = series_mean series;
               std = series_std series;
               sem = stats_sem series;
               ci_95 = t_interval t_ppf 0.95 (Fin (real n - 1)) mean sem
           in \<lparr>stat_n = n, stat_mean = mean, stat_std = std, stat_sem = sem,
               stat_ci_95 = ci_95, stat_median = series_median series,
               stat_q1 = series_quantile 0.25 series,
               stat_q3 = series_quantile 0.75 series\<rparr>)"

section \<open>calculate\_mean\_difference\_effects\<close>

record effects =
  hedges_g :: npfloat
  glass_delta :: npfloat
  mean_diff_ci_95 :: "npfloat \<times> npfloat"

text \<open>
  The function mixes two kinds of numbers, and the kind decides what a division by zero
  does. The sample sizes and the literals are Python numbers. \<open>Series.mean()\<close> and
  \<open>Series.var()\<close> return a numpy \<open>float64\<close> on a series with at least one value and
  the Python float \<open>nan\<close> on an empty series. An operation with a numpy operand is
  numpy's and returns a numpy scalar: a zero divisor gives an infinity or NaN. A division
  of two Python numbers raises \<open>ZeroDivisionError\<close> on a zero divisor. \<open>np.sqrt\<close>
  and the t quantile return numpy scalars; the quantile answers NaN on degrees of freedom
  that are NaN or not positive and does not raise.
\<close>

datatype error = ZeroDivisionError | KeyError string | ValueError_no_data | ValueError_zero_expected

datatype scalar = PyNum npfloat | NpNum npfloat

fun value_of :: "scalar \<Rightarrow> npfloat" where
  "value_of (PyNum x) = x"
| "value_of (NpNum x) = x"

fun is_numpy :: "scalar \<Rightarrow> bool" where
  "is_numpy (PyNum x) = False"
| "is_numpy (NpNum x) = True"

definition kind_of_result :: "scalar \<Rightarrow> scalar \<Rightarrow> npfloat \<Rightarrow> scalar" where
  "kind_of_result a b x = (if is_numpy a \<or> is_numpy b then NpNum x else PyNum x)"

definition sadd :: "scalar \<Rightarrow> scalar \<Rightarrow> scalar" where
  "sadd a b = kind_of_result a b (fadd (value_of a) (value_of b))"

definition ssub :: "scalar \<Rightarrow> scalar \<Rightarrow> scalar" where
  "ssub a b = kind_of_result a b (fsub (value_of a) (value_of b))"

definition smul :: "scalar \<Rightarrow> scalar \<Rightarrow> scalar" where
  "smul a b = kind_of_result a b (fmul (value_of a) (value_of b))"

definition sdiv :: "scalar \<Rightarrow> scalar \<Rightarrow> error + scalar" where
  "sdiv a b =
     (if \<not> is_numpy a \<and> \<not> is_numpy b \<and> value_of b = Fin 0 then Inl ZeroDivisionError
      else Inr (kind_of_result a b (fdiv (value_of a) (value_of b))))"

text \<open>The power \<open>x ** 2\<close> keeps the kind of \<open>x\<close>.\<close>

fun spow2 :: "scalar \<Rightarrow> scalar" where
  "spow2 (PyNum x) = PyNum (fsquare x)"
| "spow2 (NpNum x) = NpNum (fsquare x)"

definition np_sqrt :: "scalar \<Rightarrow> scalar" where
  "np_sqrt a = NpNum (fsqrt (value_of a))"

definition py_int :: "int \<Rightarrow> scalar" where
  "py_int k = PyNum (Fin (of_int k))"

text \<open>The result of a reduction over the series \<open>s\<close> whose value is \<open>x\<close>.\<close>

definition reduction :: "real list \<Rightarrow> npfloat \<Rightarrow> scalar" where
  "reduction s x = (if s = [] then PyNum x else NpNum x)"

text \<open>An exception ends the function: the rest runs only on a value.\<close>

definition bind_err :: "error + 'a \<Rightarrow> ('a \<Rightarrow> error + 'b) \<Rightarrow> error + 'b" where
  "bind_err r f = (case r of Inl e \<Rightarrow> Inl e | Inr x \<Rightarrow> f x)"

text \<open>
  The divisions are taken in the order of the source (lines 92, 93, 94, 99, 102, 103-104);
  line 103 repeats the two quotients of line 102, which are used again here. The record
  holds the float values of the results.
\<close>

definition calculate_mean_difference_effects ::
  "(real \<Rightarrow> npfloat \<Rightarrow> npfloat) \<Rightarrow> cell list \<Rightarrow> cell list \<Rightarrow> error + effects" where
  "calculate_mean_difference_effects t_ppf series1 series2 =
     (let s1 = dropna (to_numeric series1);
          s2 = dropna (to_numeric series2);
          n1 = int (length s1); n2 = int (length s2);
          m1 = reduction s1 (series_mean s1); m2 = reduction s2 (series_mean s2);
          v1 = reduction s1 (series_var s1); v2 = reduction s2 (series_var s2)
      in bind_err (sdiv (sadd (smul (py_int (n1 - 1)) v1) (smul (py_int (n2 - 1)) v2))
                        (py_int (n1 + n2 - 2))) (\<lambda>pooled.
         let pooled_std = np_sqrt pooled
         in bind_err (sdiv (ssub m1 m2) pooled_std) (\<lambda>d.
            bind_err (sdiv (py_int 3) (py_int (4 * (n1 + n2) - 9))) (\<lambda>q.
            let j = ssub (py_int 1) q;
                g = smul d j;
                sd1 = np_sqrt v1
            in bind_err (sdiv (ssub m1 m2) sd1) (\<lambda>delta.
               bind_err (sdiv v1 (py_int n1)) (\<lambda>q1.
               bind_err (sdiv v2 (py_int n2)) (\<lambda>q2.
               let se_diff = np_sqrt (sadd q1 q2)
               in bind_err (sdiv (spow2 v1) (py_int (n1\<^sup>2 * (n1 - 1)))) (\<lambda>w1.
                  bind_err (sdiv (spow2 v2) (py_int (n2\<^sup>2 * (n2 - 1)))) (\<lambda>w2.
                  bind_err (sdiv (spow2 (sadd q1 q2)) (sadd w1 w2)) (\<lambda>df_welch.
                  let t_crit = NpNum (t_ppf 0.975 (value_of df_welch));
                      mean_diff = ssub m1 m2;
                      ci_diff = (value_of (ssub mean_diff (smul t_crit se_diff)),
                                 value_of (sadd mean_diff (smul t_crit se_diff)))
                  in Inr \<lparr>hedges_g = value_of g, glass_delta = value_of delta,
                          mean_diff_ci_95 = ci_diff\<rparr>))))))))))"

text \<open>
  The quantities of the textbook formula for Hedges' g, over the reals: the arithmetic
  mean, the variance with divisor \<open>n - 1\<close>, the pooled variance and the small-sample
  factor.
\<close>

definition mean_of :: "real list \<Rightarrow> real" where
  "mean_of xs = sum_list xs / real (length xs)"

definition bessel_var :: "real list \<Rightarrow> real" where
  "bessel_var xs = (\<Sum>x\<leftarrow>xs. (x - mean_of xs)\<^sup>2) / (real (length xs) - 1)"

definition pooled_var :: "real list \<Rightarrow> real list \<Rightarrow> real" where
  "pooled_var xs ys =
     ((real (length xs) - 1) * bessel_var xs + (real (length ys) - 1) * bessel_var ys)
       / (real (length xs) + real (length ys) - 2)"

definition correction_j :: "real list \<Rightarrow> real list \<Rightarrow> real" where
  "correction_j xs ys = 1 - 3 / (4 * (real (length xs) + real (length ys)) - 9)"

section \<open>The contingency tables of analyze\_version\_differences\_v2\<close>

text \<open>
  Step 1 of \<open>analyze_version_differences_v2\<close> cross-tabulates the publishing version
  against the answers to each question and hands the table to \<open>chi2_contingency\<close>.
  The function has no \<open>try\<close>: an exception of a library call ends the analysis.

  A data frame is its columns by name, all of one length; an entry is absent (\<open>None\<close>)
  or a label. Labels are of any linearly ordered type (strings in the data).
\<close>

type_synonym 'a dataframe = "(string \<times> 'a option list) list"

definition get_column :: "'a dataframe \<Rightarrow> string \<Rightarrow> error + 'a option list" where
  "get_column df name = (case map_of df name of None \<Rightarrow> Inl (KeyError name) | Some col \<Rightarrow> Inr col)"

text \<open>
  \<open>pd.crosstab(index, columns)\<close> counts the rows of the frame in which both entries are
  present. Its row and column labels are the values that occur in those rows, sorted; a
  label that occurs in no complete row gets no row or column.
\<close>

fun valid_pairs :: "'a option list \<Rightarrow> 'b option list \<Rightarrow> ('a \<times> 'b) list" where
  "valid_pairs (Some g # gs) (Some c # cs) = (g, c) # valid_pairs gs cs"
| "valid_pairs (g # gs) (c # cs) = valid_pairs gs cs"
| "valid_pairs gs cs = []"

definition crosstab :: "'a::linorder option list \<Rightarrow> 'b::linorder option list \<Rightarrow> nat list list" where
  "crosstab index columns =
     (let pairs = valid_pairs index columns;
          row_labels = sort (remdups (map fst pairs));
          col_labels = sort (remdups (map snd pairs))
      in map (\<lambda>g. map (\<lambda>c. count_list pairs (g, c)) col_labels) row_labels)"

text \<open>
  \<open>scipy.stats.chi2_contingency\<close> is library code. The model keeps its input checks,
  in their order: a table without cells raises \<open>ValueError\<close> ("No data"); the expected
  frequencies are \<open>row total * column total / grand total\<close>, and a zero among them
  raises \<open>ValueError\<close> ("The internally computed table of expected frequencies has a
  zero element"); with zero degrees of freedom the p-value is \<open>1.0\<close>. Counts are
  naturals, so the check for negative entries cannot fire. The p-value of a table that
  passes the checks (Pearson's statistic, with Yates' correction at one degree of freedom,
  under the chi-square survival function) is a numerical primitive and a parameter
  \<open>p_value\<close>. On a table of zeros only, the expected frequencies are \<open>0 / 0\<close>, that
  is NaN, which is not equal to zero: no check fires.
\<close>

definition row_sums :: "nat list list \<Rightarrow> nat list" where
  "row_sums observed = map sum_list observed"

definition col_sums :: "nat list list \<Rightarrow> nat list" where
  "col_sums observed =
     (case observed of
        [] \<Rightarrow> []
      | row # _ \<Rightarrow> map (\<lambda>j. sum_list (map (\<lambda>r. r ! j) observed)) [0..<length row])"

definition expected_freq :: "nat list list \<Rightarrow> npfloat list list" where
  "expected_freq observed =
     (let total = sum_list (row_sums observed)
      in map (\<lambda>r. map (\<lambda>c. fdiv (Fin (real (r * c))) (Fin (real total))) (col_sums observed))
             (row_sums observed))"

definition table_size :: "nat list list \<Rightarrow> nat" where
  "table_size observed = sum_list (map length observed)"

definition chi2_contingency :: "(nat list list \<Rightarrow> npfloat) \<Rightarrow> nat list list \<Rightarrow> error + npfloat" where
  "chi2_contingency p_value observed =
     (if table_size observed = 0 then Inl ValueError_no_data
      else let expected = expected_freq observed
           in if Fin 0 \<in> set (concat expected) then Inl ValueError_zero_expected
              else let dof = (length observed - 1) * (length (hd observed) - 1)
                   in if dof = 0 then Inr (Fin 1) else Inr (p_value observed))"

text \<open>A table is rectangular when its rows have one length, as a two-dimensional array has.\<close>

definition rectangular :: "nat list list \<Rightarrow> bool" where
  "rectangular observed = (\<forall>row\<in>set observed. length row = length (hd observed))"

text \<open>
  The loop over the questions: each iteration reads the two columns, builds the table,
  tests it and appends the result. The first exception ends the loop and the function.
\<close>

record test_result =
  question :: string
  counts_table :: "nat list list"
  p_raw :: npfloat

fun run_tests ::
  "(nat list list \<Rightarrow> npfloat) \<Rightarrow> 'a::linorder dataframe \<Rightarrow> string list \<Rightarrow> error + test_result list" where
  "run_tests p_value df [] = Inr []"
| "run_tests p_value df (q # qs) =
     (case get_column df ''Publishing version (from Pub)'' of
        Inl e \<Rightarrow> Inl e
      | Inr version \<Rightarrow>
          (case get_column df q of
             Inl e \<Rightarrow> Inl e
           | Inr answers \<Rightarrow>
               (let tbl = crosstab version answers
                in case chi2_contingency p_value tbl of
                     Inl e \<Rightarrow> Inl e
                   | Inr p \<Rightarrow>
                       (case run_tests p_value df qs of
                          Inl e \<Rightarrow> Inl e
                        | Inr rest \<Rightarrow>
                            Inr (\<lparr>question = q, counts_table = tbl, p_raw = p\<rparr> # rest)))))"

section \<open>Multiple testing corrections\<close>

text \<open>
  Modelled from the spec: \<open>multipletests\<close> is code of the statsmodels library, which
  the repository calls and does not contain. The model follows section 4.5 of the
  specification: Bonferroni multiplies each p-value by the family size and caps it at 1;
  Benjamini-Hochberg sorts the p-values ascending, scales the p-value of rank \<open>j\<close> by
  \<open>k / j\<close>, makes the result monotone by a running minimum from the largest p-value
  down, and maps the values back to the original positions. The steps are laid out as
  the library runs them: the family is sorted once through \<open>argsort\<close>, each method
  works on the sorted values, values above 1 are set to 1, and the result is written back
  through the sorting permutation. The script keeps the adjusted p-values only (the second
  component of the result). The family is a list of finite p-values.
\<close>

datatype correction_method = Bonferroni | FdrBH

definition argsort :: "real list \<Rightarrow> nat list" where
  "argsort pvals = sort_key (\<lambda>i. pvals ! i) [0..<length pvals]"

definition np_take :: "real list \<Rightarrow> nat list \<Rightarrow> real list" where
  "np_take a indices = map (\<lambda>i. a ! i) indices"

text \<open>The factor \<open>j / k\<close> of rank \<open>j = 1, ..., k\<close>.\<close>

definition ecdf :: "nat \<Rightarrow> real list" where
  "ecdf nobs = map (\<lambda>i. real i / real nobs) [1..<nobs + 1]"

text \<open>\<open>np.minimum.accumulate\<close>: the running minimum from the left.\<close>

fun accumulate_from :: "real \<Rightarrow> real list \<Rightarrow> real list" where
  "accumulate_from m [] = []"
| "accumulate_from m (x # xs) = min m x # accumulate_from (min m x) xs"

fun minimum_accumulate :: "real list \<Rightarrow> real list" where
  "minimum_accumulate [] = []"
| "minimum_accumulate (x # xs) = x # accumulate_from x xs"

definition cap_at_one :: "real list \<Rightarrow> real list" where
  "cap_at_one pvals_corrected = map (\<lambda>p. if p > 1 then 1 else p) pvals_corrected"

definition fdrcorrection :: "real list \<Rightarrow> real list" where
  "fdrcorrection pvals_sorted =
     (let ecdffactor = ecdf (length pvals_sorted);
          pvals_corrected_raw = map2 (\<lambda>p e. p / e) pvals_sorted ecdffactor;
          pvals_corrected = rev (minimum_accumulate (rev pvals_corrected_raw))
      in cap_at_one pvals_corrected)"

text \<open>Writing the values back: position \<open>sortind ! r\<close> of the output receives value \<open>r\<close>.\<close>

definition scatter :: "nat list \<Rightarrow> real list \<Rightarrow> real list" where
  "scatter sortind vals =
     fold (\<lambda>(i, v) out. out[i := v]) (zip sortind vals) (replicate (length vals) 0)"

definition multipletests :: "correction_method \<Rightarrow> real list \<Rightarrow> real list" where
  "multipletests method pvals =
     (let sortind = argsort pvals;
          pvals_s = np_take pvals sortind;
          ntests = length pvals_s;
          pvals_corrected =
            (case method of
               Bonferroni \<Rightarrow> map (\<lambda>p. p * real ntests) pvals_s
             | FdrBH \<Rightarrow> fdrcorrection pvals_s)
      in scatter sortind (cap_at_one pvals_corrected))"

text \<open>
  The step-up definition in the words of the specification: the q-value of the p-value of
  rank \<open>r\<close> is the minimum over the ranks \<open>j \<ge> r\<close> of \<open>p(j) * k / j\<close>. Ranks
  count from zero here, so the divisor is \<open>j + 1\<close>.
\<close>

definition bh_stepup :: "real list \<Rightarrow> nat \<Rightarrow> real" where
  "bh_stepup raw_p r =
     Min ((\<lambda>j. sort raw_p ! j * real (length raw_p) / real (j + 1)) ` {r..<length raw_p})"

section \<open>Attaching the adjusted values and the printed verdict\<close>

text \<open>
  Step 2 of \<open>analyze_version_differences_v2\<close> corrects the family of raw p-values by
  both methods and stores \<open>p_bonferroni[i]\<close> and \<open>q_fdr[i]\<close> in the \<open>i\<close>-th result;
  step 3 prints one of three lines for each result, comparing with the literal \<open>0.05\<close>.
\<close>

record adjusted =
  p_bonferroni :: real
  q_fdr :: real

definition attach_adjusted :: "real list \<Rightarrow> adjusted list" where
  "attach_adjusted raw_p_values =
     (let bonf = multipletests Bonferroni raw_p_values;
          fdr = multipletests FdrBH raw_p_values
      in map (\<lambda>i. \<lparr>p_bonferroni = bonf ! i, q_fdr = fdr ! i\<rparr>) [0..<length raw_p_values])"

datatype verdict = SignificantBonferroni | SignificantFDR | NotSignificant

definition report_verdict :: "adjusted \<Rightarrow> verdict" where
  "report_verdict res =
     (if p_bonferroni res < 0.05 then SignificantBonferroni
      else if q_fdr res < 0.05 then SignificantFDR
      else NotSignificant)"

definition significant :: "verdict \<Rightarrow> bool" where
  "significant v = (v \<noteq> NotSignificant)"

section \<open>Properties of calculate\_descriptive\_stats\<close>

lemma length_dropna_to_numeric:
  "length (dropna (to_numeric series)) = length (filter (\<lambda>c. c \<noteq> NonNumeric) series)"
proof (induction series)
  case Nil
  show ?case by (simp add: to_numeric_def)
next
  case (Cons c cs)
  then show ?case by (cases c) (simp_all add: to_numeric_def)
qed

text \<open>
  C3. When fewer than two cells of the input convert to a number, the result carries the
  count of convertible cells as \<open>n\<close> and NaN in every other field (mean, std, sem, both
  confidence bounds, median, q1, q3). The function is total: this branch performs no
  operation that could raise.
\<close>

theorem calculate_descriptive_stats_small_sample:
  assumes "length (filter (\<lambda>c. c \<noteq> NonNumeric) data_series) < 2"
  shows "calculate_descriptive_stats t_ppf data_series =
           \<lparr>stat_n = length (filter (\<lambda>c. c \<noteq> NonNumeric) data_series),
            stat_mean = NaN, stat_std = NaN, stat_sem = NaN,
            stat_ci_95 = (NaN, NaN), stat_median = NaN, stat_q1 = NaN, stat_q3 = NaN\<rparr>"
  using assms
  by (simp add: calculate_descriptive_stats_def Let_def length_dropna_to_numeric)

theorem calculate_descriptive_stats_small_sample_witness:
  "length (filter (\<lambda>c. c \<noteq> NonNumeric) [NonNumeric, Num 5]) < 2
   \<and> calculate_descriptive_stats (\<lambda>p df. NaN) [NonNumeric, Num 5] =
       \<lparr>stat_n = 1, stat_mean = NaN, stat_std = NaN, stat_sem = NaN,
        stat_ci_95 = (NaN, NaN), stat_median = NaN, stat_q1 = NaN, stat_q3 = NaN\<rparr>"
  using calculate_descriptive_stats_small_sample [of "[NonNumeric, Num 5]" "\<lambda>p df. NaN"]
  by simp

section \<open>Properties of calculate\_mean\_difference\_effects\<close>

text \<open>The divisor of the one division between Python numbers is never zero.\<close>

lemma j_divisor_nonzero: "4 * (n1 + n2) - 9 \<noteq> (0::int)"
  by presburger

text \<open>Sign changes and NaN in the arithmetic.\<close>

lemma fsub_Fin: "fsub (Fin a) (Fin b) = Fin (a - b)"
  by (simp add: fsub_def)





text \<open>Operations with a numpy operand, and the division of two Python numbers.\<close>

lemma bind_err_Inr: "bind_err (Inr x) f = f x"
  by (simp add: bind_err_def)

lemma bind_err_Inl: "bind_err (Inl e) f = Inl e"
  by (simp add: bind_err_def)

lemma reduction_nonempty: "s \<noteq> [] \<Longrightarrow> reduction s x = NpNum x"
  by (simp add: reduction_def)

lemma sadd_np:
  "sadd (NpNum x) b = NpNum (fadd x (value_of b))"
  "sadd a (NpNum y) = NpNum (fadd (value_of a) y)"
  by (simp_all add: sadd_def kind_of_result_def)

lemma ssub_np:
  "ssub (NpNum x) b = NpNum (fsub x (value_of b))"
  "ssub a (NpNum y) = NpNum (fsub (value_of a) y)"
  by (simp_all add: ssub_def kind_of_result_def)

lemma smul_np:
  "smul (NpNum x) b = NpNum (fmul x (value_of b))"
  "smul a (NpNum y) = NpNum (fmul (value_of a) y)"
  by (simp_all add: smul_def kind_of_result_def)

lemma sdiv_np:
  "sdiv (NpNum x) b = Inr (NpNum (fdiv x (value_of b)))"
  "sdiv a (NpNum y) = Inr (NpNum (fdiv (value_of a) y))"
  by (simp_all add: sdiv_def kind_of_result_def)

lemma sdiv_py_zero: "sdiv (PyNum x) (py_int 0) = Inl ZeroDivisionError"
  by (simp add: sdiv_def py_int_def)

lemma value_of_py_int: "value_of (py_int k) = Fin (of_int k)"
  by (simp add: py_int_def)

lemma j_quotient:
  "sdiv (py_int 3) (py_int (4 * (n1 + n2) - 9)) = Inr (PyNum (Fin (3 / of_int (4 * (n1 + n2) - 9))))"
proof -
  have "(of_int (4 * (n1 + n2) - 9) :: real) \<noteq> 0"
    using j_divisor_nonzero [of n1 n2] by (simp only: of_int_eq_0_iff) simp
  then show ?thesis
    by (simp add: sdiv_def py_int_def kind_of_result_def)
qed

lemma j_value: "ssub (py_int 1) (PyNum (Fin q)) = PyNum (Fin (1 - q))"
  by (simp add: ssub_def py_int_def kind_of_result_def fsub_def)

text \<open>
  When both groups have a value every reduction is a numpy scalar: nothing is raised and
  the fields are the float expressions of the source.
\<close>

lemma effects_nonempty:
  fixes A B :: "cell list"
  defines "a \<equiv> dropna (to_numeric A)" and "b \<equiv> dropna (to_numeric B)"
  assumes ne: "a \<noteq> []" "b \<noteq> []"
  obtains r t_crit where
    "calculate_mean_difference_effects t_ppf A B = Inr r"
    "hedges_g r =
       fmul (fdiv (fsub (series_mean a) (series_mean b))
                  (fsqrt (fdiv (fadd (fmul (Fin (of_int (int (length a) - 1))) (series_var a))
                                     (fmul (Fin (of_int (int (length b) - 1))) (series_var b)))
                               (Fin (of_int (int (length a) + int (length b) - 2))))))
            (Fin (1 - 3 / of_int (4 * (int (length a) + int (length b)) - 9)))"
    "glass_delta r = fdiv (fsub (series_mean a) (series_mean b)) (fsqrt (series_var a))"
    "mean_diff_ci_95 r =
       (fsub (fsub (series_mean a) (series_mean b))
             (fmul t_crit (fsqrt (fadd (fdiv (series_var a) (Fin (of_int (int (length a)))))
                                       (fdiv (series_var b) (Fin (of_int (int (length b)))))))),
        fadd (fsub (series_mean a) (series_mean b))
             (fmul t_crit (fsqrt (fadd (fdiv (series_var a) (Fin (of_int (int (length a)))))
                                       (fdiv (series_var b) (Fin (of_int (int (length b)))))))))"
proof -
  have "\<exists>r t. calculate_mean_difference_effects t_ppf A B = Inr r
      \<and> hedges_g r =
       fmul (fdiv (fsub (series_mean a) (series_mean b))
                  (fsqrt (fdiv (fadd (fmul (Fin (of_int (int (length a) - 1))) (series_var a))
                                     (fmul (Fin (of_int (int (length b) - 1))) (series_var b)))
                               (Fin (of_int (int (length a) + int (length b) - 2))))))
            (Fin (1 - 3 / of_int (4 * (int (length a) + int (length b)) - 9)))
      \<and> glass_delta r = fdiv (fsub (series_mean a) (series_mean b)) (fsqrt (series_var a))
      \<and> mean_diff_ci_95 r =
       (fsub (fsub (series_mean a) (series_mean b))
             (fmul t (fsqrt (fadd (fdiv (series_var a) (Fin (of_int (int (length a)))))
                                  (fdiv (series_var b) (Fin (of_int (int (length b)))))))),
        fadd (fsub (series_mean a) (series_mean b))
             (fmul t (fsqrt (fadd (fdiv (series_var a) (Fin (of_int (int (length a)))))
                                  (fdiv (series_var b) (Fin (of_int (int (length b)))))))))"
    unfolding calculate_mean_difference_effects_def Let_def a_def [symmetric] b_def [symmetric]
    by (simp only: reduction_nonempty [OF ne(1)] reduction_nonempty [OF ne(2)]
        smul_np sadd_np ssub_np sdiv_np bind_err_Inr np_sqrt_def value_of.simps
        value_of_py_int j_quotient j_value spow2.simps effects.select_convs sum.inject
        simp_thms ex_simps) blast
  then show ?thesis
    using that by blast
qed

text \<open>An empty group ends the function at line 102 with \<open>ZeroDivisionError\<close>.\<close>

lemma effects_empty_group_raises:
  assumes "dropna (to_numeric A) = [] \<or> dropna (to_numeric B) = []"
  shows "calculate_mean_difference_effects t_ppf A B = Inl ZeroDivisionError"
proof (cases "dropna (to_numeric A) = []")
  case True
  have v1: "reduction (dropna (to_numeric A)) x = PyNum x" for x
    using True by (simp add: reduction_def)
  have n1: "int (length (dropna (to_numeric A))) = 0"
    using True by simp
  have first: "\<exists>p. sdiv (sadd (smul (py_int (0 - 1)) (PyNum x)) (smul c v)) (py_int (0 + k - 2)) = Inr p"
    if "is_numpy v \<or> k = 0" for x c v k
    using that
    by (cases v) (auto simp add: sdiv_def sadd_def smul_def kind_of_result_def py_int_def)
  have "is_numpy (reduction (dropna (to_numeric B)) y) \<or> int (length (dropna (to_numeric B))) = 0"
    for y
    by (simp add: reduction_def)
  from first [OF this] obtain p where p:
    "sdiv (sadd (smul (py_int (0 - 1)) (PyNum (series_var (dropna (to_numeric A)))))
        (smul (py_int (int (length (dropna (to_numeric B))) - 1))
           (reduction (dropna (to_numeric B)) (series_var (dropna (to_numeric B))))))
        (py_int (0 + int (length (dropna (to_numeric B))) - 2)) = Inr p"
    by blast
  show ?thesis
    unfolding calculate_mean_difference_effects_def Let_def
    by (simp only: v1 n1 p bind_err_Inr bind_err_Inl np_sqrt_def sdiv_np j_quotient sdiv_py_zero)
next
  case False
  with assms have b: "dropna (to_numeric B) = []" by simp
  have v2: "reduction (dropna (to_numeric B)) x = PyNum x" for x
    using b by (simp add: reduction_def)
  have n2: "int (length (dropna (to_numeric B))) = 0"
    using b by simp
  show ?thesis
    unfolding calculate_mean_difference_effects_def Let_def
    by (simp only: v2 n2 reduction_nonempty [OF False]
        smul_np sadd_np ssub_np sdiv_np bind_err_Inr bind_err_Inl
        np_sqrt_def j_quotient sdiv_py_zero)
qed

text \<open>With enough values the reductions are the finite textbook quantities.\<close>

lemma series_mean_Fin: "s \<noteq> [] \<Longrightarrow> series_mean s = Fin (mean_of s)"
  by (simp add: series_mean_def mean_of_def)

lemma series_var_Fin: "2 \<le> length s \<Longrightarrow> series_var s = Fin (bessel_var s)"
  by (simp add: series_var_def bessel_var_def mean_of_def)

lemma bessel_var_nonneg: "2 \<le> length s \<Longrightarrow> 0 \<le> bessel_var s"
  unfolding bessel_var_def
  by (intro divide_nonneg_nonneg sum_list_nonneg) auto

lemma pooled_var_nonneg:
  assumes "2 \<le> length xs" "2 \<le> length ys"
  shows "0 \<le> pooled_var xs ys"
  unfolding pooled_var_def
  using assms bessel_var_nonneg [OF assms(1)] bessel_var_nonneg [OF assms(2)]
  by (intro divide_nonneg_nonneg add_nonneg_nonneg mult_nonneg_nonneg) auto

lemma hedges_g_unfold:
  assumes "2 \<le> length (dropna (to_numeric A))" "2 \<le> length (dropna (to_numeric B))"
  obtains r where
    "calculate_mean_difference_effects t_ppf A B = Inr r"
    "hedges_g r =
       fmul (fdiv (Fin (mean_of (dropna (to_numeric A)) - mean_of (dropna (to_numeric B))))
                  (Fin (sqrt (pooled_var (dropna (to_numeric A)) (dropna (to_numeric B))))))
            (Fin (correction_j (dropna (to_numeric A)) (dropna (to_numeric B))))"
proof -
  let ?a = "dropna (to_numeric A)" and ?b = "dropna (to_numeric B)"
  have ne: "?a \<noteq> []" "?b \<noteq> []" using assms by auto
  have pv: "fdiv (fadd (fmul (Fin (of_int (int (length ?a) - 1))) (series_var ?a))
                       (fmul (Fin (of_int (int (length ?b) - 1))) (series_var ?b)))
                 (Fin (of_int (int (length ?a) + int (length ?b) - 2)))
            = Fin (pooled_var ?a ?b)"
    using assms by (simp add: series_var_Fin pooled_var_def)
  have j: "Fin (1 - 3 / of_int (4 * (int (length ?a) + int (length ?b)) - 9))
           = Fin (correction_j ?a ?b)"
    by (simp add: correction_j_def)
  have sq: "fsqrt (Fin (pooled_var ?a ?b)) = Fin (sqrt (pooled_var ?a ?b))"
    using pooled_var_nonneg [OF assms] by simp
  obtain r t_crit where r: "calculate_mean_difference_effects t_ppf A B = Inr r"
    and g: "hedges_g r =
       fmul (fdiv (fsub (series_mean ?a) (series_mean ?b))
                  (fsqrt (fdiv (fadd (fmul (Fin (of_int (int (length ?a) - 1))) (series_var ?a))
                                     (fmul (Fin (of_int (int (length ?b) - 1))) (series_var ?b)))
                               (Fin (of_int (int (length ?a) + int (length ?b) - 2))))))
            (Fin (1 - 3 / of_int (4 * (int (length ?a) + int (length ?b)) - 9)))"
    using effects_nonempty [OF ne, of t_ppf] by blast
  have "hedges_g r =
       fmul (fdiv (Fin (mean_of ?a - mean_of ?b)) (Fin (sqrt (pooled_var ?a ?b))))
            (Fin (correction_j ?a ?b))"
    unfolding g
    by (simp only: pv j sq series_mean_Fin [OF ne(1)] series_mean_Fin [OF ne(2)] fsub_Fin)
  with r show ?thesis by (rule that)
qed

lemma pooled_var_commute: "pooled_var xs ys = pooled_var ys xs"
  by (simp add: pooled_var_def add.commute)



text \<open>
  C7. For two samples with at least two valid values each, the function returns and
  Hedges' g is computed as \<open>d * j\<close> with \<open>d = (mean1 - mean2) / pooled_sd\<close>,
  \<open>pooled_sd = sqrt (((n1 - 1) * var1 + (n2 - 1) * var2) / (n1 + n2 - 2))\<close> on the
  variances with divisor \<open>n - 1\<close>, and \<open>j = 1 - 3 / (4 * (n1 + n2) - 9)\<close>; the
  difference is group A minus group B. The division and the product are the float
  operations of the code; when the pooled variance is not zero the result is the finite
  number the formula denotes.
\<close>

theorem hedges_g_formula:
  assumes "2 \<le> length (dropna (to_numeric A))" "2 \<le> length (dropna (to_numeric B))"
  shows "\<exists>r. calculate_mean_difference_effects t_ppf A B = Inr r
         \<and> hedges_g r =
           fmul (fdiv (Fin (mean_of (dropna (to_numeric A)) - mean_of (dropna (to_numeric B))))
                      (Fin (sqrt (pooled_var (dropna (to_numeric A)) (dropna (to_numeric B))))))
                (Fin (correction_j (dropna (to_numeric A)) (dropna (to_numeric B))))
         \<and> (pooled_var (dropna (to_numeric A)) (dropna (to_numeric B)) \<noteq> 0 \<longrightarrow>
              hedges_g r =
                Fin ((mean_of (dropna (to_numeric A)) - mean_of (dropna (to_numeric B)))
                       / sqrt (pooled_var (dropna (to_numeric A)) (dropna (to_numeric B)))
                     * correction_j (dropna (to_numeric A)) (dropna (to_numeric B))))"
proof -
  obtain r where r: "calculate_mean_difference_effects t_ppf A B = Inr r"
    and g: "hedges_g r =
       fmul (fdiv (Fin (mean_of (dropna (to_numeric A)) - mean_of (dropna (to_numeric B))))
                  (Fin (sqrt (pooled_var (dropna (to_numeric A)) (dropna (to_numeric B))))))
            (Fin (correction_j (dropna (to_numeric A)) (dropna (to_numeric B))))"
    using assms by (rule hedges_g_unfold)
  show ?thesis
    using r g by (intro exI [of _ r]) simp
qed

text \<open>The groups \<open>[0, 1, 2]\<close> and \<open>[3, 4, 5]\<close>, evaluated.\<close>

lemma ex_mean_A: "mean_of [0, 1, 2] = 1"
  by (simp add: mean_of_def)
lemma ex_mean_B: "mean_of [3, 4, 5] = 4"
  by (simp add: mean_of_def)
lemma ex_var_A: "bessel_var [0, 1, 2] = 1"
  by (simp add: bessel_var_def ex_mean_A)
lemma ex_var_B: "bessel_var [3, 4, 5] = 1"
  by (simp add: bessel_var_def ex_mean_B)
lemma ex_pooled: "pooled_var [0, 1, 2] [3, 4, 5] = 1"
  by (simp add: pooled_var_def ex_var_A ex_var_B)
lemma ex_j: "correction_j [0, 1, 2] [3, 4, 5] = 4 / 5"
  by (simp add: correction_j_def)

theorem hedges_g_formula_witness:
  "2 \<le> length (dropna (to_numeric [Num 0, Num 1, Num 2]))
   \<and> 2 \<le> length (dropna (to_numeric [Num 3, Num 4, Num 5]))
   \<and> (\<exists>r. calculate_mean_difference_effects (\<lambda>p df. NaN)
             [Num 0, Num 1, Num 2] [Num 3, Num 4, Num 5] = Inr r
           \<and> hedges_g r = Fin (- 12 / 5))"
  using hedges_g_formula [of "[Num 0, Num 1, Num 2]" "[Num 3, Num 4, Num 5]" "\<lambda>p df. NaN"]
  by (simp add: to_numeric_def ex_mean_A ex_mean_B ex_pooled ex_j)


lemma ex_pooled_swapped: "pooled_var [3, 4, 5] [0, 1, 2] = 1"
  by (simp add: pooled_var_commute ex_pooled)




text \<open>NaN absorbs every operation.\<close>

lemma fmul_NaN_right: "fmul x NaN = NaN"
  by (cases x) simp_all
lemma fadd_NaN_right: "fadd x NaN = NaN"
  by (cases x) simp_all
lemma fdiv_NaN_right: "fdiv x NaN = NaN"
  by (cases x) simp_all
lemma fsub_NaN_right: "fsub x NaN = NaN"
  by (cases x) (simp_all add: fsub_def)
lemma fsub_NaN_left: "fsub NaN x = NaN"
  by (simp add: fsub_def)

lemma fmul_NaN_left: "fmul NaN x = NaN"
  by simp
lemma fadd_NaN_left: "fadd NaN x = NaN"
  by simp
lemma fdiv_NaN_left: "fdiv NaN x = NaN"
  by simp

lemmas nan_simps = fmul_NaN_right fadd_NaN_right fdiv_NaN_right fsub_NaN_right fsub_NaN_left
  fmul_NaN_left fadd_NaN_left fdiv_NaN_left

lemma series_var_small: "length s < 2 \<Longrightarrow> series_var s = NaN"
  by (simp add: series_var_def)

text \<open>
  Both groups have a value and one of them has a single value: the fields of the result.
\<close>

lemma effects_single_value:
  assumes ne: "dropna (to_numeric A) \<noteq> []" "dropna (to_numeric B) \<noteq> []"
    and small: "length (dropna (to_numeric A)) < 2 \<or> length (dropna (to_numeric B)) < 2"
  obtains r where
    "calculate_mean_difference_effects t_ppf A B = Inr r"
    "hedges_g r = NaN"
    "mean_diff_ci_95 r = (NaN, NaN)"
    "glass_delta r = fdiv (fsub (series_mean (dropna (to_numeric A))) (series_mean (dropna (to_numeric B))))
                          (fsqrt (series_var (dropna (to_numeric A))))"
proof -
  let ?a = "dropna (to_numeric A)" and ?b = "dropna (to_numeric B)"
  obtain r t_crit where r: "calculate_mean_difference_effects t_ppf A B = Inr r"
    and g: "hedges_g r =
       fmul (fdiv (fsub (series_mean ?a) (series_mean ?b))
                  (fsqrt (fdiv (fadd (fmul (Fin (of_int (int (length ?a) - 1))) (series_var ?a))
                                     (fmul (Fin (of_int (int (length ?b) - 1))) (series_var ?b)))
                               (Fin (of_int (int (length ?a) + int (length ?b) - 2))))))
            (Fin (1 - 3 / of_int (4 * (int (length ?a) + int (length ?b)) - 9)))"
    and d: "glass_delta r = fdiv (fsub (series_mean ?a) (series_mean ?b)) (fsqrt (series_var ?a))"
    and c: "mean_diff_ci_95 r =
       (fsub (fsub (series_mean ?a) (series_mean ?b))
             (fmul t_crit (fsqrt (fadd (fdiv (series_var ?a) (Fin (of_int (int (length ?a)))))
                                       (fdiv (series_var ?b) (Fin (of_int (int (length ?b)))))))),
        fadd (fsub (series_mean ?a) (series_mean ?b))
             (fmul t_crit (fsqrt (fadd (fdiv (series_var ?a) (Fin (of_int (int (length ?a)))))
                                       (fdiv (series_var ?b) (Fin (of_int (int (length ?b)))))))))"
    using effects_nonempty [OF ne, of t_ppf] by blast
  have g': "hedges_g r = NaN"
    unfolding g using small
    by (auto simp add: series_var_small nan_simps simp del: fdiv.simps fmul.simps fadd.simps)
  have c': "mean_diff_ci_95 r = (NaN, NaN)"
    unfolding c using small
    by (auto simp add: series_var_small nan_simps simp del: fdiv.simps fmul.simps fadd.simps)
  show ?thesis
    using r g' c' d by (rule that)
qed

text \<open>
  C9, amended. When both groups have at least one valid value and one of them has fewer
  than two, the function returns, and Hedges' g and both bounds of the confidence interval
  are NaN, whatever the t quantile returns. Glass's delta is NaN when group A has fewer
  than two valid values; when group A has at least two values of non-zero variance (and
  group B, then, exactly one), Glass's delta is the finite number
  \<open>(mean1 - mean2) / sd1\<close>.
\<close>

theorem effects_small_sample:
  assumes "1 \<le> length (dropna (to_numeric A))" "1 \<le> length (dropna (to_numeric B))"
    and "length (dropna (to_numeric A)) < 2 \<or> length (dropna (to_numeric B)) < 2"
  shows "\<exists>r. calculate_mean_difference_effects t_ppf A B = Inr r
       \<and> hedges_g r = NaN
       \<and> mean_diff_ci_95 r = (NaN, NaN)
       \<and> (length (dropna (to_numeric A)) < 2 \<longrightarrow> glass_delta r = NaN)
       \<and> (2 \<le> length (dropna (to_numeric A)) \<and> bessel_var (dropna (to_numeric A)) \<noteq> 0 \<longrightarrow>
            glass_delta r =
              Fin ((mean_of (dropna (to_numeric A)) - mean_of (dropna (to_numeric B)))
                     / sqrt (bessel_var (dropna (to_numeric A)))))"
proof -
  let ?a = "dropna (to_numeric A)" and ?b = "dropna (to_numeric B)"
  have ne: "?a \<noteq> []" "?b \<noteq> []" using assms(1,2) by auto
  obtain r where r: "calculate_mean_difference_effects t_ppf A B = Inr r"
    and g: "hedges_g r = NaN" and c: "mean_diff_ci_95 r = (NaN, NaN)"
    and d: "glass_delta r = fdiv (fsub (series_mean ?a) (series_mean ?b)) (fsqrt (series_var ?a))"
    using ne assms(3) by (rule effects_single_value)
  have d1: "glass_delta r = NaN" if "length ?a < 2"
    unfolding d using that by (simp add: series_var_small nan_simps del: fdiv.simps)
  have d2: "glass_delta r = Fin ((mean_of ?a - mean_of ?b) / sqrt (bessel_var ?a))"
    if "2 \<le> length ?a \<and> bessel_var ?a \<noteq> 0"
  proof -
    have len: "2 \<le> length ?a" using that by simp
    have sq: "fsqrt (Fin (bessel_var ?a)) = Fin (sqrt (bessel_var ?a))"
      using bessel_var_nonneg [OF len] by simp
    have nz: "sqrt (bessel_var ?a) \<noteq> 0" using that by simp
    show ?thesis
      unfolding d using nz
      by (simp only: series_var_Fin [OF len] series_mean_Fin [OF ne(1)]
          series_mean_Fin [OF ne(2)] sq fsub_Fin fdiv.simps if_True simp_thms)
  qed
  show ?thesis
    using r g c d1 d2 by blast
qed

lemma ex_mean_C: "mean_of [4] = 4"
  by (simp add: mean_of_def)

theorem effects_small_sample_witness:
  "1 \<le> length (dropna (to_numeric [Num 0, Num 1, Num 2]))
   \<and> 1 \<le> length (dropna (to_numeric [Num 4]))
   \<and> length (dropna (to_numeric [Num 4])) < 2
   \<and> (\<exists>r. calculate_mean_difference_effects (\<lambda>p df. NaN) [Num 0, Num 1, Num 2] [Num 4] = Inr r
         \<and> hedges_g r = NaN \<and> mean_diff_ci_95 r = (NaN, NaN) \<and> glass_delta r = Fin (- 3))"
  using effects_small_sample [of "[Num 0, Num 1, Num 2]" "[Num 4]" "\<lambda>p df. NaN"]
  by (simp add: to_numeric_def ex_mean_A ex_mean_C ex_var_A)

text \<open>
  C9 as stated fails: with group A = \<open>[0, 1, 2]\<close> and the single value \<open>4\<close> in
  group B, the function returns and Glass's delta is \<open>-3\<close>, not NaN.
\<close>

theorem effects_small_sample_counterexample:
  "\<not> (\<forall>t_ppf A B.
        length (dropna (to_numeric A)) < 2 \<or> length (dropna (to_numeric B)) < 2 \<longrightarrow>
        (\<exists>r. calculate_mean_difference_effects t_ppf A B = Inr r
           \<and> hedges_g r = NaN \<and> glass_delta r = NaN \<and> mean_diff_ci_95 r = (NaN, NaN)))"
proof
  assume "\<forall>t_ppf A B.
        length (dropna (to_numeric A)) < 2 \<or> length (dropna (to_numeric B)) < 2 \<longrightarrow>
        (\<exists>r. calculate_mean_difference_effects t_ppf A B = Inr r
           \<and> hedges_g r = NaN \<and> glass_delta r = NaN \<and> mean_diff_ci_95 r = (NaN, NaN))"
  moreover have "length (dropna (to_numeric [Num 4])) < 2"
    by (simp add: to_numeric_def)
  ultimately obtain r where
    r: "calculate_mean_difference_effects (\<lambda>p df. NaN) [Num 0, Num 1, Num 2] [Num 4] = Inr r"
    and nan: "glass_delta r = NaN"
    by blast
  have ne: "dropna (to_numeric [Num 0, Num 1, Num 2]) \<noteq> []" "dropna (to_numeric [Num 4]) \<noteq> []"
    by (simp_all add: to_numeric_def)
  obtain r0 where r0: "calculate_mean_difference_effects (\<lambda>p df. NaN)
        [Num 0, Num 1, Num 2] [Num 4] = Inr r0"
    and d: "glass_delta r0 =
      fdiv (fsub (series_mean (dropna (to_numeric [Num 0, Num 1, Num 2])))
                 (series_mean (dropna (to_numeric [Num 4]))))
           (fsqrt (series_var (dropna (to_numeric [Num 0, Num 1, Num 2]))))"
    using effects_nonempty [OF ne, of "\<lambda>p df. NaN"] by blast
  have "glass_delta r0 = Fin (- 3)"
    unfolding d by (simp add: to_numeric_def series_mean_def series_var_def fsub_def)
  moreover have "r0 = r" using r r0 by simp
  ultimately show False using nan by simp
qed

section \<open>Properties of the contingency tables\<close>

text \<open>Every label of a cross-tabulation occurs in a counted row, so no marginal is zero.\<close>

lemma count_list_pos: "x \<in> set xs \<Longrightarrow> 0 < count_list xs x"
  by (metis count_list_0_iff gr0I)

lemma sum_list_map_pos:
  fixes f :: "'a \<Rightarrow> nat"
  assumes "y \<in> set ys" "0 < f y"
  shows "0 < sum_list (map f ys)"
proof -
  have "f y \<le> sum_list (map f ys)"
    using assms(1) by (intro member_le_sum_list) simp_all
  then show ?thesis using assms(2) by simp
qed

lemma crosstab_row_positive:
  assumes "row \<in> set (crosstab index columns)"
  shows "0 < sum_list row"
proof -
  let ?pairs = "valid_pairs index columns"
  let ?cols = "sort (remdups (map snd ?pairs))"
  obtain g where g: "g \<in> set (map fst ?pairs)"
    and row: "row = map (\<lambda>c. count_list ?pairs (g, c)) ?cols"
    using assms by (auto simp: crosstab_def Let_def)
  then obtain c where gc: "(g, c) \<in> set ?pairs" by auto
  then have "c \<in> set ?cols" by force
  then show ?thesis
    unfolding row using count_list_pos [OF gc] by (rule sum_list_map_pos)
qed

lemma col_sums_crosstab:
  "col_sums (crosstab index columns) =
     map (\<lambda>c. sum_list (map (\<lambda>g. count_list (valid_pairs index columns) (g, c))
                           (sort (remdups (map fst (valid_pairs index columns))))))
         (sort (remdups (map snd (valid_pairs index columns))))"
proof -
  let ?pairs = "valid_pairs index columns"
  let ?rows = "sort (remdups (map fst ?pairs))"
  let ?cols = "sort (remdups (map snd ?pairs))"
  show ?thesis
  proof (cases "?rows")
    case Nil
    then have "?pairs = []" 
      by (metis list.map_disc_iff remdups_eq_nil_iff sort_key_simps(1) length_0_conv length_sort)
    then show ?thesis by (simp add: col_sums_def crosstab_def)
  next
    case (Cons g gs)
    have "col_sums (crosstab index columns) =
        map (\<lambda>j. sum_list (map (\<lambda>r. r ! j) (crosstab index columns))) [0..<length ?cols]"
      using Cons by (simp add: col_sums_def crosstab_def Let_def)
    also have "\<dots> = map (\<lambda>j. sum_list (map (\<lambda>g. count_list ?pairs (g, ?cols ! j)) ?rows))
                          [0..<length ?cols]"
      by (intro map_cong refl) (simp add: crosstab_def Let_def comp_def)
    also have "\<dots> = map (\<lambda>c. sum_list (map (\<lambda>g. count_list ?pairs (g, c)) ?rows))
                          (map (\<lambda>j. ?cols ! j) [0..<length ?cols])"
      by (simp add: comp_def)
    also have "map (\<lambda>j. ?cols ! j) [0..<length ?cols] = ?cols"
      by (rule map_nth)
    finally show ?thesis .
  qed
qed

lemma crosstab_col_positive:
  assumes "s \<in> set (col_sums (crosstab index columns))"
  shows "0 < s"
proof -
  let ?pairs = "valid_pairs index columns"
  let ?rows = "sort (remdups (map fst ?pairs))"
  obtain c where c: "c \<in> set (map snd ?pairs)"
    and s: "s = sum_list (map (\<lambda>g. count_list ?pairs (g, c)) ?rows)"
    using assms unfolding col_sums_crosstab by auto
  then obtain g where gc: "(g, c) \<in> set ?pairs" by auto
  then have "g \<in> set ?rows" by force
  then show ?thesis
    unfolding s using count_list_pos [OF gc] by (rule sum_list_map_pos)
qed

text \<open>The checks of \<open>chi2_contingency\<close> in terms of the marginal totals.\<close>

lemma expected_cells:
  "set (concat (expected_freq observed)) =
     (\<lambda>(r, c). fdiv (Fin (real (r * c))) (Fin (real (sum_list (row_sums observed)))))
       ` (set (row_sums observed) \<times> set (col_sums observed))"
  by (auto simp add: expected_freq_def Let_def simp del: fdiv.simps)

lemma expected_cell_value:
  assumes "0 < (t::nat)"
  shows "fdiv (Fin (real (r * c))) (Fin (real t)) = Fin 0 \<longleftrightarrow> r = 0 \<or> c = 0"
  using assms by simp

lemma table_size_pos_iff: "0 < table_size observed \<longleftrightarrow> (\<exists>row\<in>set observed. row \<noteq> [])"
  by (induction observed) (auto simp: table_size_def)

lemma total_pos_iff:
  "0 < sum_list (row_sums observed) \<longleftrightarrow> (\<exists>r\<in>set (row_sums observed). 0 < r)"
  by (induction observed) (auto simp: row_sums_def)

lemma chi2_contingency_no_raise:
  assumes "table_size observed \<noteq> 0"
    and rows: "\<forall>r\<in>set (row_sums observed). 0 < r"
    and cols: "\<forall>c\<in>set (col_sums observed). 0 < c"
  shows "\<exists>p. chi2_contingency p_value observed = Inr p"
proof -
  have "observed \<noteq> []" using assms(1) by (auto simp: table_size_def)
  then obtain r where "r \<in> set (row_sums observed)"
    by (cases observed) (auto simp: row_sums_def)
  then have total: "0 < sum_list (row_sums observed)"
    using rows total_pos_iff [of observed] by blast
  have "Fin 0 \<notin> set (concat (expected_freq observed))"
  proof
    assume "Fin 0 \<in> set (concat (expected_freq observed))"
    then obtain r c where rc: "r \<in> set (row_sums observed)" "c \<in> set (col_sums observed)"
      "fdiv (Fin (real (r * c))) (Fin (real (sum_list (row_sums observed)))) = Fin 0"
      unfolding expected_cells by force
    from rc(3) have "r = 0 \<or> c = 0"
      by (simp only: expected_cell_value [OF total])
    then show False using rc(1,2) rows cols by auto
  qed
  then show ?thesis
    using assms(1) by (simp add: chi2_contingency_def Let_def)
qed

lemma chi2_contingency_zero_marginal:
  assumes "rectangular observed"
    and total: "0 < sum_list (row_sums observed)"
    and zero: "0 \<in> set (row_sums observed) \<or> 0 \<in> set (col_sums observed)"
  shows "chi2_contingency p_value observed = Inl ValueError_zero_expected"
proof -
  have "\<exists>r\<in>set (row_sums observed). 0 < r"
    using total by (simp only: total_pos_iff)
  then obtain row where row: "row \<in> set observed" "0 < sum_list row"
    by (auto simp: row_sums_def)
  then have rne: "row \<noteq> []" by auto
  then have size: "table_size observed \<noteq> 0"
    using row(1) table_size_pos_iff [of observed] by auto
  have ne: "observed \<noteq> []" using row(1) by auto
  have "length (hd observed) = length row"
    using assms(1) row(1) by (simp add: rectangular_def)
  then have "0 < length (hd observed)" using rne by simp
  then have "col_sums observed \<noteq> []"
    using ne by (cases observed) (auto simp: col_sums_def)
  then obtain c where c: "c \<in> set (col_sums observed)"
    by (cases "col_sums observed") auto
  obtain r where r: "r \<in> set (row_sums observed)"
    using ne by (cases observed) (auto simp: row_sums_def)
  obtain r' c' where rc: "r' \<in> set (row_sums observed)" "c' \<in> set (col_sums observed)"
    "r' = 0 \<or> c' = 0"
    using zero c r by blast
  have cell: "fdiv (Fin (real (r' * c'))) (Fin (real (sum_list (row_sums observed)))) = Fin 0"
    using rc(3) by (simp only: expected_cell_value [OF total])
  have "(r', c') \<in> set (row_sums observed) \<times> set (col_sums observed)"
    using rc(1,2) by simp
  then have "(\<lambda>(r, c). fdiv (Fin (real (r * c))) (Fin (real (sum_list (row_sums observed)))))
      (r', c') \<in> set (concat (expected_freq observed))"
    unfolding expected_cells by (rule imageI)
  then have "Fin 0 \<in> set (concat (expected_freq observed))"
    by (simp only: prod.case cell)
  then show ?thesis
    using size by (simp add: chi2_contingency_def Let_def)
qed

lemma crosstab_size:
  assumes "valid_pairs index columns \<noteq> []"
  shows "table_size (crosstab index columns) \<noteq> 0"
proof -
  let ?pairs = "valid_pairs index columns"
  obtain g c where gc: "(g, c) \<in> set ?pairs"
    using assms by (cases ?pairs) auto
  have g: "g \<in> set (sort (remdups (map fst ?pairs)))"
    using gc by force
  have c: "c \<in> set (sort (remdups (map snd ?pairs)))"
    using gc by force
  let ?row = "map (\<lambda>c. count_list ?pairs (g, c)) (sort (remdups (map snd ?pairs)))"
  have "?row \<in> set (crosstab index columns)"
    unfolding crosstab_def Let_def set_map using g by (rule imageI)
  moreover have "?row \<noteq> []"
    using c by (auto simp del: set_sort set_remdups)
  ultimately have "\<exists>row\<in>set (crosstab index columns). row \<noteq> []" by blast
  then show ?thesis
    using table_size_pos_iff [of "crosstab index columns"] by simp
qed

lemma chi2_contingency_crosstab:
  assumes "valid_pairs index columns \<noteq> []"
  shows "\<exists>p. chi2_contingency p_value (crosstab index columns) = Inr p"
proof (rule chi2_contingency_no_raise)
  show "table_size (crosstab index columns) \<noteq> 0"
    by (rule crosstab_size [OF assms])
  show "\<forall>r\<in>set (row_sums (crosstab index columns)). 0 < r"
    by (auto simp: row_sums_def crosstab_row_positive)
  show "\<forall>c\<in>set (col_sums (crosstab index columns)). 0 < c"
    by (auto simp: crosstab_col_positive)
qed

text \<open>An exception of the test leaves the loop: no result is produced for any question.\<close>

lemma run_tests_raises:
  assumes "get_column df ''Publishing version (from Pub)'' = Inr version"
    and "get_column df q = Inr answers"
    and "chi2_contingency p_value (crosstab version answers) = Inl e"
  shows "run_tests p_value df (q # qs) = Inl e"
  using assms by (simp add: Let_def)

text \<open>The loop of the script never meets a zero expected frequency.\<close>

lemma chi2_contingency_crosstab_no_zero_expected:
  "chi2_contingency p_value (crosstab index columns) \<noteq> Inl ValueError_zero_expected"
proof (cases "valid_pairs index columns = []")
  case True
  then have "crosstab index columns = []"
    by (simp add: crosstab_def)
  then show ?thesis
    by (simp add: chi2_contingency_def table_size_def)
next
  case False
  then obtain p where "chi2_contingency p_value (crosstab index columns) = Inr p"
    using chi2_contingency_crosstab by blast
  then show ?thesis by simp
qed

lemma run_tests_no_zero_expected:
  "run_tests p_value df questions \<noteq> Inl ValueError_zero_expected"
proof (induction questions)
  case Nil
  show ?case by simp
next
  case (Cons q qs)
  show ?case
    using Cons.IH chi2_contingency_crosstab_no_zero_expected [of p_value]
    by (auto simp: Let_def get_column_def split: sum.splits option.splits)
qed

section \<open>Properties of the corrections\<close>

text \<open>The sorting permutation and the sorted family.\<close>

lemma length_argsort: "length (argsort ps) = length ps"
  by (simp add: argsort_def)

lemma set_argsort: "set (argsort ps) = {0..<length ps}"
  by (simp add: argsort_def)

lemma distinct_argsort: "distinct (argsort ps)"
  by (simp add: argsort_def)

lemma take_argsort: "np_take ps (argsort ps) = sort ps"
proof -
  have "mset (np_take ps (argsort ps)) = mset (map (\<lambda>i. ps ! i) [0..<length ps])"
    by (simp add: np_take_def argsort_def)
  then have m: "mset (np_take ps (argsort ps)) = mset ps"
    by (simp add: map_nth)
  have s: "sorted (np_take ps (argsort ps))"
    by (simp add: np_take_def argsort_def)
  show ?thesis
    using m s by (metis properties_for_sort)
qed

text \<open>Writing back through a permutation puts value \<open>r\<close> at position \<open>idx ! r\<close>.\<close>

lemma fold_update_other:
  "i \<notin> set (map fst ivs) \<Longrightarrow> fold (\<lambda>(i, v) out. out[i := v]) ivs out ! i = out ! i"
  by (induction ivs arbitrary: out) (auto split: prod.splits)

lemma length_fold_update:
  "length (fold (\<lambda>(i, v) out. out[i := v]) ivs out) = length out"
  by (induction ivs arbitrary: out) (auto split: prod.splits)

lemma fold_update_nth:
  assumes "distinct idx" "length idx = length vals" "r < length idx" "idx ! r < length out"
  shows "fold (\<lambda>(i, v) out. out[i := v]) (zip idx vals) out ! (idx ! r) = vals ! r"
  using assms
proof (induction idx arbitrary: vals out r)
  case Nil
  then show ?case by simp
next
  case (Cons i idx)
  then obtain v vs where vals: "vals = v # vs" by (cases vals) auto
  show ?case
  proof (cases r)
    case 0
    have "i \<notin> set (map fst (zip idx vs))"
      using Cons.prems(1) by (auto dest: set_zip_leftD)
    then show ?thesis
      using 0 vals Cons.prems by (simp add: fold_update_other)
  next
    case (Suc r')
    then show ?thesis
      using vals Cons.prems Cons.IH [of vs r' "out[i := v]"] by simp
  qed
qed

lemma length_scatter: "length (scatter idx vals) = length vals"
  by (simp add: scatter_def length_fold_update)

lemma scatter_nth:
  assumes "distinct idx" "length idx = length vals" "set idx \<subseteq> {0..<length vals}" "r < length vals"
  shows "scatter idx vals ! (idx ! r) = vals ! r"
proof -
  have "idx ! r < length vals"
    using assms by (metis atLeastLessThan_iff nth_mem subsetD)
  then show ?thesis
    unfolding scatter_def using assms by (intro fold_update_nth) auto
qed

text \<open>The running minimum taken from the right is the minimum of the remaining suffix.\<close>

lemma length_accumulate_from: "length (accumulate_from m xs) = length xs"
  by (induction xs arbitrary: m) auto

lemma length_minimum_accumulate: "length (minimum_accumulate xs) = length xs"
  by (cases xs) (auto simp: length_accumulate_from)

lemma accumulate_from_nth:
  "i < length xs \<Longrightarrow> accumulate_from m xs ! i = Min (insert m (set (take (Suc i) xs)))"
proof (induction xs arbitrary: m i)
  case Nil
  then show ?case by simp
next
  case (Cons x xs)
  show ?case
  proof (cases i)
    case 0
    then show ?thesis by (simp add: min.commute)
  next
    case (Suc i')
    then have "accumulate_from m (x # xs) ! i = Min (insert (min m x) (set (take (Suc i') xs)))"
      using Cons by simp
    also have "\<dots> = Min (insert m (insert x (set (take (Suc i') xs))))"
    proof -
      have ne: "set (take (Suc i') xs) \<noteq> {}"
        using Cons.prems Suc by (cases xs) auto
      show ?thesis
        using ne by (simp add: min.assoc)
    qed
    finally show ?thesis using Suc by simp
  qed
qed

lemma minimum_accumulate_nth:
  "i < length xs \<Longrightarrow> minimum_accumulate xs ! i = Min (set (take (Suc i) xs))"
proof (cases xs)
  case Nil
  assume "i < length xs"
  with Nil show ?thesis by simp
next
  case (Cons x xs')
  assume "i < length xs"
  then show ?thesis
    using Cons by (cases i) (simp_all add: accumulate_from_nth)
qed

lemma rev_accumulate_nth:
  assumes "i < length xs"
  shows "rev (minimum_accumulate (rev xs)) ! i = Min (set (drop i xs))"
proof -
  let ?n = "length xs"
  have "rev (minimum_accumulate (rev xs)) ! i = minimum_accumulate (rev xs) ! (?n - Suc i)"
    using assms by (simp add: rev_nth length_minimum_accumulate)
  also have "\<dots> = Min (set (take (Suc (?n - Suc i)) (rev xs)))"
    using assms by (intro minimum_accumulate_nth) simp
  also have "Suc (?n - Suc i) = ?n - i"
    using assms by simp
  also have "take (?n - i) (rev xs) = rev (drop i xs)"
    using assms by (simp add: take_rev)
  finally show ?thesis by simp
qed

text \<open>The corrected values of a sorted family, position by position.\<close>

lemma length_ecdf: "length (ecdf n) = n"
  by (simp add: ecdf_def)

lemma ecdf_nth: "j < n \<Longrightarrow> ecdf n ! j = real (j + 1) / real n"
  by (simp add: ecdf_def nth_append del: upt_Suc)

lemma set_drop_image: "set (drop r xs) = (\<lambda>j. xs ! j) ` {r..<length xs}"
proof -
  have "drop r xs = map (\<lambda>j. xs ! j) [r..<length xs]"
    by (metis drop_map drop_upt map_nth add_0)
  then show ?thesis by (metis set_map set_upt)
qed

lemma cap_at_one_nth: "i < length xs \<Longrightarrow> cap_at_one xs ! i = min 1 (xs ! i)"
  by (simp add: cap_at_one_def min_def)

lemma length_cap_at_one: "length (cap_at_one xs) = length xs"
  by (simp add: cap_at_one_def)

lemma length_fdrcorrection: "length (fdrcorrection xs) = length xs"
  by (simp add: fdrcorrection_def Let_def length_cap_at_one length_minimum_accumulate length_ecdf)

lemma fdrcorrection_nth:
  assumes "r < length xs"
  shows "fdrcorrection xs ! r =
           min 1 (Min ((\<lambda>j. xs ! j * real (length xs) / real (j + 1)) ` {r..<length xs}))"
proof -
  let ?k = "length xs"
  let ?raw = "map2 (\<lambda>p e. p / e) xs (ecdf ?k)"
  have len: "length ?raw = ?k" by (simp add: length_ecdf)
  have raw: "?raw ! j = xs ! j * real ?k / real (j + 1)" if "j < ?k" for j
    using that by (simp add: length_ecdf ecdf_nth)
  have "fdrcorrection xs ! r = min 1 (rev (minimum_accumulate (rev ?raw)) ! r)"
    using assms len
    by (simp add: fdrcorrection_def Let_def cap_at_one_nth length_minimum_accumulate)
  also have "rev (minimum_accumulate (rev ?raw)) ! r = Min (set (drop r ?raw))"
    using assms len by (intro rev_accumulate_nth) simp
  also have "set (drop r ?raw) = (\<lambda>j. ?raw ! j) ` {r..<?k}"
    by (simp only: set_drop_image len)
  also have "\<dots> = (\<lambda>j. xs ! j * real ?k / real (j + 1)) ` {r..<?k}"
    by (intro image_cong) (auto simp: raw)
  finally show ?thesis .
qed

text \<open>The corrected values at the original positions.\<close>

lemma sort_nth_argsort: "r < length ps \<Longrightarrow> sort ps ! r = ps ! (argsort ps ! r)"
proof -
  assume "r < length ps"
  then have "np_take ps (argsort ps) ! r = ps ! (argsort ps ! r)"
    by (simp add: np_take_def length_argsort)
  then show ?thesis by (simp add: take_argsort)
qed

lemma rank_exists:
  assumes "i < length ps"
  obtains r where "r < length ps" "argsort ps ! r = i"
proof -
  have "i \<in> set (argsort ps)" using assms by (simp add: set_argsort)
  then show ?thesis
    using that by (auto simp: in_set_conv_nth length_argsort)
qed

lemma length_multipletests: "length (multipletests m ps) = length ps"
  by (cases m)
    (simp_all add: multipletests_def Let_def length_scatter length_cap_at_one
      np_take_def length_argsort length_fdrcorrection)

lemma multipletests_bonferroni_rank:
  assumes "r < length ps"
  shows "multipletests Bonferroni ps ! (argsort ps ! r) = min 1 (sort ps ! r * real (length ps))"
proof -
  let ?vals = "cap_at_one (map (\<lambda>p. p * real (length ps)) (sort ps))"
  have len: "length ?vals = length ps" by (simp add: length_cap_at_one)
  have "multipletests Bonferroni ps = scatter (argsort ps) ?vals"
    by (simp add: multipletests_def Let_def take_argsort)
  moreover have "scatter (argsort ps) ?vals ! (argsort ps ! r) = ?vals ! r"
    using assms len
    by (intro scatter_nth) (simp_all add: distinct_argsort length_argsort set_argsort)
  moreover have "?vals ! r = min 1 (sort ps ! r * real (length ps))"
    using assms by (simp add: cap_at_one_nth)
  ultimately show ?thesis by simp
qed

lemma multipletests_fdr_rank:
  assumes "r < length ps"
  shows "multipletests FdrBH ps ! (argsort ps ! r) = min 1 (bh_stepup ps r)"
proof -
  let ?vals = "cap_at_one (fdrcorrection (sort ps))"
  have len: "length ?vals = length ps"
    by (simp add: length_cap_at_one length_fdrcorrection)
  have "multipletests FdrBH ps = scatter (argsort ps) ?vals"
    by (simp add: multipletests_def Let_def take_argsort)
  moreover have "scatter (argsort ps) ?vals ! (argsort ps ! r) = ?vals ! r"
    using assms len
    by (intro scatter_nth) (simp_all add: distinct_argsort length_argsort set_argsort)
  moreover have "?vals ! r = min 1 (bh_stepup ps r)"
    using assms fdrcorrection_nth [of r "sort ps"]
    by (simp add: cap_at_one_nth length_fdrcorrection bh_stepup_def)
  ultimately show ?thesis by simp
qed

lemma multipletests_bonferroni_nth:
  assumes "i < length ps"
  shows "multipletests Bonferroni ps ! i = min 1 (ps ! i * real (length ps))"
proof -
  obtain r where r: "r < length ps" "argsort ps ! r = i"
    using assms by (rule rank_exists)
  show ?thesis
    using multipletests_bonferroni_rank [OF r(1)] sort_nth_argsort [OF r(1)] r(2) by simp
qed

text \<open>The step-up minimum on a family of p-values in the unit interval.\<close>

lemma sort_nth_in_set: "r < length ps \<Longrightarrow> sort ps ! r \<in> set ps"
  by (metis length_sort nth_mem set_sort)

lemma bh_stepup_le_term:
  assumes "r \<le> j" "j < length ps"
  shows "bh_stepup ps r \<le> sort ps ! j * real (length ps) / real (j + 1)"
  unfolding bh_stepup_def using assms by (intro Min_le) auto

lemma bh_stepup_ge:
  assumes "r < length ps"
    and "\<And>j. r \<le> j \<Longrightarrow> j < length ps \<Longrightarrow> c \<le> sort ps ! j * real (length ps) / real (j + 1)"
  shows "c \<le> bh_stepup ps r"
  unfolding bh_stepup_def using assms by (subst Min_ge_iff) auto

lemma bh_stepup_le_one:
  assumes "\<forall>p\<in>set ps. 0 \<le> p \<and> p \<le> 1" "r < length ps"
  shows "bh_stepup ps r \<le> 1"
proof -
  let ?k = "length ps"
  have "bh_stepup ps r \<le> sort ps ! (?k - 1) * real ?k / real (?k - 1 + 1)"
    using assms(2) by (intro bh_stepup_le_term) auto
  also have "\<dots> = sort ps ! (?k - 1)"
  proof -
    have e: "?k - 1 + 1 = ?k" and k: "real ?k \<noteq> 0"
      using assms(2) by auto
    show ?thesis unfolding e using k by simp
  qed
  also have "\<dots> \<le> 1"
    using assms sort_nth_in_set [of "?k - 1" ps] by auto
  finally show ?thesis .
qed

lemma bh_stepup_mono:
  assumes "r \<le> r'" "r' < length ps"
  shows "bh_stepup ps r \<le> bh_stepup ps r'"
proof (rule bh_stepup_ge)
  show "r' < length ps" using assms by simp
next
  fix j assume "r' \<le> j" "j < length ps"
  then show "bh_stepup ps r \<le> sort ps ! j * real (length ps) / real (j + 1)"
    using assms(1) by (intro bh_stepup_le_term) auto
qed

lemma bh_stepup_tie:
  assumes nonneg: "\<forall>p\<in>set ps. 0 \<le> p"
    and "r \<le> r'" "r' < length ps" "sort ps ! r = sort ps ! r'"
  shows "bh_stepup ps r' \<le> bh_stepup ps r"
proof (rule bh_stepup_ge)
  show "r < length ps" using assms by simp
next
  fix j assume j: "r \<le> j" "j < length ps"
  let ?k = "real (length ps)"
  show "bh_stepup ps r' \<le> sort ps ! j * ?k / real (j + 1)"
  proof (cases "r' \<le> j")
    case True
    then show ?thesis using j by (intro bh_stepup_le_term)
  next
    case False
    then have jr: "j < r'" by simp
    have "sort ps ! r \<le> sort ps ! j" "sort ps ! j \<le> sort ps ! r'"
      using j jr assms(3) by (auto intro: sorted_nth_mono [OF sorted_sort])
    then have eq: "sort ps ! j = sort ps ! r'"
      using assms(4) by simp
    have p0: "0 \<le> sort ps ! r'"
      using nonneg sort_nth_in_set [OF assms(3)] by auto
    have "bh_stepup ps r' \<le> sort ps ! r' * ?k / real (r' + 1)"
      using assms(3) by (intro bh_stepup_le_term) auto
    also have "\<dots> \<le> sort ps ! r' * ?k / real (j + 1)"
      using p0 jr by (intro divide_left_mono mult_nonneg_nonneg) auto
    finally show ?thesis using eq by simp
  qed
qed

lemma bh_stepup_le_bonferroni:
  assumes "\<forall>p\<in>set ps. 0 \<le> p \<and> p \<le> 1" "r < length ps"
  shows "bh_stepup ps r \<le> min 1 (sort ps ! r * real (length ps))"
proof -
  have p0: "0 \<le> sort ps ! r"
    using assms sort_nth_in_set [OF assms(2)] by auto
  have "bh_stepup ps r \<le> sort ps ! r * real (length ps) / real (r + 1)"
    using assms(2) by (intro bh_stepup_le_term) auto
  also have "\<dots> \<le> sort ps ! r * real (length ps) / 1"
    using p0 by (intro divide_left_mono mult_nonneg_nonneg) auto
  finally show ?thesis
    using bh_stepup_le_one [OF assms] by simp
qed

lemma multipletests_fdr_mono:
  assumes range: "\<forall>p\<in>set ps. 0 \<le> p \<and> p \<le> 1"
    and "i < length ps" "j < length ps" "ps ! i \<le> ps ! j"
  shows "multipletests FdrBH ps ! i \<le> multipletests FdrBH ps ! j"
proof -
  obtain ri where ri: "ri < length ps" "argsort ps ! ri = i"
    using assms(2) by (rule rank_exists)
  obtain rj where rj: "rj < length ps" "argsort ps ! rj = j"
    using assms(3) by (rule rank_exists)
  have qi: "multipletests FdrBH ps ! i = min 1 (bh_stepup ps ri)"
    using multipletests_fdr_rank [OF ri(1)] ri(2) by simp
  have qj: "multipletests FdrBH ps ! j = min 1 (bh_stepup ps rj)"
    using multipletests_fdr_rank [OF rj(1)] rj(2) by simp
  have pi: "sort ps ! ri = ps ! i" using sort_nth_argsort [OF ri(1)] ri(2) by simp
  have pj: "sort ps ! rj = ps ! j" using sort_nth_argsort [OF rj(1)] rj(2) by simp
  have "bh_stepup ps ri \<le> bh_stepup ps rj"
  proof (cases "ri \<le> rj")
    case True
    then show ?thesis using rj(1) by (rule bh_stepup_mono)
  next
    case False
    then have le: "rj \<le> ri" by simp
    then have "sort ps ! rj \<le> sort ps ! ri"
      using ri(1) by (auto intro: sorted_nth_mono [OF sorted_sort])
    then have "sort ps ! rj = sort ps ! ri"
      using assms(4) pi pj by simp
    then show ?thesis
      using range le ri(1) by (intro bh_stepup_tie) auto
  qed
  then show ?thesis
    unfolding qi qj by (simp add: min.coboundedI2)
qed

section \<open>The claims about the categorical test and the corrections\<close>

text \<open>
  C2, amended. A table built by \<open>crosstab\<close> has no row and no column that sums to
  zero: an answer category that occurs in neither group gets no column, so it cannot
  abort the computation, and whenever some row of the data has both entries the test
  returns a p-value. A rectangular table with a positive grand total and a row or column
  summing to zero, handed to \<open>chi2_contingency\<close>, raises \<open>ValueError\<close>: no p-value
  is produced. The loop of the script, which tests only tables built by \<open>crosstab\<close>,
  never raises that error.
\<close>

theorem chi_square_degenerate:
  "(\<forall>row\<in>set (crosstab index columns). 0 < sum_list row)
   \<and> (\<forall>s\<in>set (col_sums (crosstab index columns)). 0 < s)
   \<and> (valid_pairs index columns \<noteq> [] \<longrightarrow>
        (\<exists>p. chi2_contingency p_value (crosstab index columns) = Inr p))
   \<and> (rectangular observed \<and> 0 < sum_list (row_sums observed)
        \<and> (0 \<in> set (row_sums observed) \<or> 0 \<in> set (col_sums observed)) \<longrightarrow>
        chi2_contingency p_value observed = Inl ValueError_zero_expected)
   \<and> run_tests p_value df questions \<noteq> Inl ValueError_zero_expected"
  using crosstab_row_positive [of _ index columns] crosstab_col_positive [of _ index columns]
    chi2_contingency_crosstab [of index columns p_value]
    chi2_contingency_zero_marginal [of observed p_value]
    run_tests_no_zero_expected [of p_value df questions]
  by blast

text \<open>A cross-tabulation and a table with an empty column, evaluated.\<close>

lemma ex_crosstab:
  "crosstab [Some (1::nat), Some 2, Some 1, None] [Some (5::nat), Some 5, Some 7, Some 9]
     = [[1, 1], [1, 0]]"
  by (simp add: crosstab_def)

lemma ex_degenerate_table:
  "rectangular [[3, 0], [2, 0]]" "row_sums [[3, 0], [2, 0]] = [3, 2]"
  "col_sums [[3, 0], [2, 0]] = [5, 0]"
  by (simp_all add: rectangular_def row_sums_def col_sums_def)

theorem chi_square_degenerate_witness:
  "set (crosstab [Some (1::nat), Some 2, Some 1, None] [Some (5::nat), Some 5, Some 7, Some 9]) \<noteq> {}
   \<and> set (col_sums (crosstab [Some (1::nat), Some 2, Some 1, None]
                               [Some (5::nat), Some 5, Some 7, Some 9])) \<noteq> {}
   \<and> valid_pairs [Some (1::nat), Some 2, Some 1, None] [Some (5::nat), Some 5, Some 7, Some 9] \<noteq> []
   \<and> (\<exists>p. chi2_contingency (\<lambda>t. Fin (1 / 2))
          (crosstab [Some (1::nat), Some 2, Some 1, None] [Some (5::nat), Some 5, Some 7, Some 9]) = Inr p)
   \<and> rectangular [[3, 0], [2, 0]] \<and> 0 < sum_list (row_sums [[3, 0], [2, 0]])
   \<and> 0 \<in> set (col_sums [[3, 0], [2, 0]])
   \<and> chi2_contingency (\<lambda>t. Fin (1 / 2)) [[3, 0], [2, 0]] = Inl ValueError_zero_expected"
proof -
  let ?t = "crosstab [Some (1::nat), Some 2, Some 1, None] [Some (5::nat), Some 5, Some 7, Some 9]"
  have rows: "set ?t \<noteq> {}"
    unfolding ex_crosstab by simp
  have cols: "set (col_sums ?t) \<noteq> {}"
    unfolding ex_crosstab by (simp add: col_sums_def)
  have pairs: "valid_pairs [Some (1::nat), Some 2, Some 1, None]
      [Some (5::nat), Some 5, Some 7, Some 9] \<noteq> []"
    by simp
  have tot: "0 < sum_list (row_sums [[3, 0], [2, 0]])"
    unfolding ex_degenerate_table by simp
  have zero: "0 \<in> set (col_sums [[3, 0], [2, 0]])"
    unfolding ex_degenerate_table by simp
  show ?thesis
    using rows cols pairs tot zero ex_degenerate_table(1)
      chi_square_degenerate [of "[Some (1::nat), Some 2, Some 1, None]"
        "[Some (5::nat), Some 5, Some 7, Some 9]" "\<lambda>t. Fin (1 / 2)" "[[3, 0], [2, 0]]"]
    by blast
qed

text \<open>
  C2 as stated fails: on the table \<open>[[3, 0], [2, 0]]\<close>, whose second column sums to
  zero, the test raises instead of returning an outcome.
\<close>

theorem chi_square_degenerate_counterexample:
  "\<not> (\<forall>p_value observed.
        0 \<in> set (row_sums observed) \<or> 0 \<in> set (col_sums observed) \<longrightarrow>
        (\<exists>p. chi2_contingency p_value observed = Inr p))"
proof
  assume "\<forall>p_value observed.
        0 \<in> set (row_sums observed) \<or> 0 \<in> set (col_sums observed) \<longrightarrow>
        (\<exists>p. chi2_contingency p_value observed = Inr p)"
  then have "0 \<in> set (row_sums [[3, 0], [2, 0]]) \<or> 0 \<in> set (col_sums [[3, 0], [2, 0]]) \<longrightarrow>
        (\<exists>p. chi2_contingency (\<lambda>t. Fin (1 / 2)) [[3, 0], [2, 0]] = Inr p)"
    by blast
  moreover have "chi2_contingency (\<lambda>t. Fin (1 / 2)) [[3, 0], [2, 0]] = Inl ValueError_zero_expected"
    by (rule chi2_contingency_zero_marginal) (simp_all add: ex_degenerate_table)
  ultimately show False
    by (simp add: ex_degenerate_table)
qed

text \<open>
  C4. For a family of \<open>k\<close> raw p-values in \<open>[0, 1]\<close> and every index \<open>i\<close>, the
  Bonferroni-adjusted p-value is \<open>min 1 (raw_p[i] * k)\<close>; it is at least the raw
  p-value and at most 1.
\<close>

theorem bonferroni_adjusted:
  assumes "\<forall>p\<in>set raw_p. 0 \<le> p \<and> p \<le> 1" "i < length raw_p"
  shows "multipletests Bonferroni raw_p ! i = min 1 (raw_p ! i * real (length raw_p))
       \<and> raw_p ! i \<le> multipletests Bonferroni raw_p ! i
       \<and> multipletests Bonferroni raw_p ! i \<le> 1"
proof -
  have p: "0 \<le> raw_p ! i" "raw_p ! i \<le> 1"
    using assms by auto
  have "1 \<le> real (length raw_p)" using assms(2) by simp
  then have "raw_p ! i * 1 \<le> raw_p ! i * real (length raw_p)"
    using p(1) by (intro mult_left_mono) auto
  then show ?thesis
    using p(2) by (simp add: multipletests_bonferroni_nth [OF assms(2)])
qed

theorem bonferroni_adjusted_witness:
  "(1::nat) < length [1 / 100, 1 / 5, 1 / 25, 1 / 2 :: real]
   \<and> multipletests Bonferroni [1 / 100, 1 / 5, 1 / 25, 1 / 2] ! 1 = 4 / 5"
  using bonferroni_adjusted [of "[1 / 100, 1 / 5, 1 / 25, 1 / 2]" 1]
  by simp

text \<open>
  C5. For a family of raw p-values in \<open>[0, 1]\<close>, the Benjamini-Hochberg q-value at
  the original position of the p-value of rank \<open>r\<close> is the step-up minimum of the
  specification at that rank (the sorting permutation reaches every position), and the
  q-values are non-decreasing along ascending p-values: a p-value that is not larger has a
  q-value that is not larger.
\<close>

theorem fdr_bh_stepup:
  assumes "\<forall>p\<in>set raw_p. 0 \<le> p \<and> p \<le> 1"
  shows "(\<forall>r<length raw_p.
            raw_p ! (argsort raw_p ! r) = sort raw_p ! r
            \<and> multipletests FdrBH raw_p ! (argsort raw_p ! r) = bh_stepup raw_p r)
       \<and> set (argsort raw_p) = {0..<length raw_p}
       \<and> (\<forall>i<length raw_p. \<forall>j<length raw_p.
            raw_p ! i \<le> raw_p ! j \<longrightarrow>
            multipletests FdrBH raw_p ! i \<le> multipletests FdrBH raw_p ! j)"
proof (intro conjI allI impI)
  fix r assume r: "r < length raw_p"
  show "raw_p ! (argsort raw_p ! r) = sort raw_p ! r"
    using sort_nth_argsort [OF r] by simp
  show "multipletests FdrBH raw_p ! (argsort raw_p ! r) = bh_stepup raw_p r"
    using multipletests_fdr_rank [OF r] bh_stepup_le_one [OF assms r] by simp
next
  show "set (argsort raw_p) = {0..<length raw_p}"
    by (rule set_argsort)
next
  fix i j assume "i < length raw_p" "j < length raw_p" "raw_p ! i \<le> raw_p ! j"
  then show "multipletests FdrBH raw_p ! i \<le> multipletests FdrBH raw_p ! j"
    using assms by (intro multipletests_fdr_mono) auto
qed

text \<open>The family \<open>[0.01, 0.20, 0.04, 0.50]\<close>, evaluated.\<close>

lemma ex_argsort: "argsort [1 / 100, 1 / 5, 1 / 25, 1 / 2] = [0, 2, 1, 3]"
  by (simp add: argsort_def upt_rec [of 0] upt_rec [of 1] upt_rec [of 2] upt_rec [of 3])

lemma ex_fdr: "multipletests FdrBH [1 / 100, 1 / 5, 1 / 25, 1 / 2] = [1 / 25, 4 / 15, 2 / 25, 1 / 2]"
  by (simp add: multipletests_def Let_def ex_argsort np_take_def fdrcorrection_def ecdf_def
      cap_at_one_def scatter_def upt_rec [of 1] upt_rec [of 2] upt_rec [of 3] upt_rec [of 4])

lemma ex_bonferroni:
  "multipletests Bonferroni [1 / 100, 1 / 5, 1 / 25, 1 / 2] = [1 / 25, 4 / 5, 4 / 25, 1]"
  by (simp add: multipletests_def Let_def ex_argsort np_take_def cap_at_one_def scatter_def)

theorem fdr_bh_stepup_witness:
  "(1::nat) < length [1 / 100, 1 / 5, 1 / 25, 1 / 2 :: real]
   \<and> argsort [1 / 100, 1 / 5, 1 / 25, 1 / 2] ! 1 = 2
   \<and> bh_stepup [1 / 100, 1 / 5, 1 / 25, 1 / 2] 1 = 2 / 25
   \<and> [1 / 100, 1 / 5, 1 / 25, 1 / 2 :: real] ! 2 \<le> [1 / 100, 1 / 5, 1 / 25, 1 / 2] ! 1
   \<and> multipletests FdrBH [1 / 100, 1 / 5, 1 / 25, 1 / 2] ! 2
       \<le> multipletests FdrBH [1 / 100, 1 / 5, 1 / 25, 1 / 2] ! 1"
proof -
  let ?raw = "[1 / 100, 1 / 5, 1 / 25, 1 / 2 :: real]"
  have range: "\<forall>p\<in>set ?raw. 0 \<le> p \<and> p \<le> 1" by simp
  have len: "(1::nat) < length ?raw" "(2::nat) < length ?raw" by simp_all
  have ord: "?raw ! 2 \<le> ?raw ! 1" by simp
  note w = fdr_bh_stepup [OF range]
  have "multipletests FdrBH ?raw ! (argsort ?raw ! 1) = bh_stepup ?raw 1"
    using w len(1) by blast
  then have step: "bh_stepup ?raw 1 = 2 / 25"
    by (simp add: ex_argsort ex_fdr)
  have mono: "multipletests FdrBH ?raw ! 2 \<le> multipletests FdrBH ?raw ! 1"
    using w len ord by blast
  show ?thesis
    using len(1) ord step mono by (simp add: ex_argsort)
qed

text \<open>
  C6. For every item \<open>i\<close> of a corrected family, the printed verdict follows the chained
  rule with the threshold \<open>0.05\<close>: significant by Bonferroni if
  \<open>p_bonferroni[i] < 0.05\<close>, otherwise significant by FDR if \<open>q_fdr[i] < 0.05\<close>,
  otherwise not significant.
\<close>

theorem verdict_rule:
  assumes "i < length raw_p"
  shows "report_verdict (attach_adjusted raw_p ! i) =
           (if multipletests Bonferroni raw_p ! i < 0.05 then SignificantBonferroni
            else if multipletests FdrBH raw_p ! i < 0.05 then SignificantFDR
            else NotSignificant)
       \<and> (significant (report_verdict (attach_adjusted raw_p ! i)) \<longleftrightarrow>
            multipletests Bonferroni raw_p ! i < 0.05 \<or> multipletests FdrBH raw_p ! i < 0.05)"
  using assms by (simp add: attach_adjusted_def Let_def report_verdict_def significant_def)

theorem verdict_rule_witness:
  "(2::nat) < length [1 / 100, 1 / 5, 1 / 25, 1 / 2 :: real]
   \<and> report_verdict (attach_adjusted [1 / 100, 1 / 5, 1 / 25, 1 / 2] ! 0) = SignificantBonferroni
   \<and> report_verdict (attach_adjusted [1 / 100, 1 / 5, 1 / 25, 1 / 2] ! 2) = NotSignificant"
  using verdict_rule [of 0 "[1 / 100, 1 / 5, 1 / 25, 1 / 2]"]
    verdict_rule [of 2 "[1 / 100, 1 / 5, 1 / 25, 1 / 2]"]
  by (simp add: ex_fdr ex_bonferroni)

text \<open>
  C10. For a family of raw p-values in \<open>[0, 1]\<close> and every index \<open>i\<close>, the
  Benjamini-Hochberg q-value is at most the Bonferroni-adjusted p-value; hence the item is
  reported significant exactly when its q-value is below \<open>0.05\<close>.
\<close>

theorem fdr_le_bonferroni:
  assumes "\<forall>p\<in>set raw_p. 0 \<le> p \<and> p \<le> 1" "i < length raw_p"
  shows "multipletests FdrBH raw_p ! i \<le> multipletests Bonferroni raw_p ! i
       \<and> (significant (report_verdict (attach_adjusted raw_p ! i)) \<longleftrightarrow>
            multipletests FdrBH raw_p ! i < 0.05)"
proof -
  obtain r where r: "r < length raw_p" "argsort raw_p ! r = i"
    using assms(2) by (rule rank_exists)
  have "multipletests FdrBH raw_p ! i = min 1 (bh_stepup raw_p r)"
    using multipletests_fdr_rank [OF r(1)] r(2) by simp
  also have "\<dots> \<le> bh_stepup raw_p r" by simp
  also have "\<dots> \<le> min 1 (sort raw_p ! r * real (length raw_p))"
    by (rule bh_stepup_le_bonferroni [OF assms(1) r(1)])
  also have "\<dots> = multipletests Bonferroni raw_p ! i"
    using multipletests_bonferroni_rank [OF r(1)] r(2) by simp
  finally have le: "multipletests FdrBH raw_p ! i \<le> multipletests Bonferroni raw_p ! i" .
  then show ?thesis
    using assms(2)
    by (auto simp add: attach_adjusted_def Let_def report_verdict_def significant_def)
qed

theorem fdr_le_bonferroni_witness:
  "(0::nat) < length [1 / 100, 1 / 5, 1 / 25, 1 / 2 :: real]
   \<and> multipletests FdrBH [1 / 100, 1 / 5, 1 / 25, 1 / 2] ! 0
       \<le> multipletests Bonferroni [1 / 100, 1 / 5, 1 / 25, 1 / 2] ! 0
   \<and> significant (report_verdict (attach_adjusted [1 / 100, 1 / 5, 1 / 25, 1 / 2] ! 0))
   \<and> multipletests FdrBH [1 / 100, 1 / 5, 1 / 25, 1 / 2] ! 0 < 0.05"
  using fdr_le_bonferroni [of "[1 / 100, 1 / 5, 1 / 25, 1 / 2]" 0]
  by (simp add: ex_fdr)

end
